theory Spec2Isabelle
  imports Complex_Main "HOL-Library.Sublist" "HOL-Library.Multiset"
begin

section \<open>Paths and the lock-marker directory (InstanceCoordinator)\<close>

text \<open>
  The two extractor scripts, \<^verbatim>\<open>anime_index/v.py\<close> and \<^verbatim>\<open>anime_index/ser.py\<close>, share the class
  \<^verbatim>\<open>InstanceCoordinator\<close>.  A lock is a marker file
  \<^verbatim>\<open>os.path.join(coordination_dir, basename(file_path) + ".lock")\<close> whose content is the
  holder's identifier and whose modification time is the time of acquisition.  The marker
  directory is a map from marker paths to markers; file-system calls on it are taken to succeed
  (\<^verbatim>\<open>v.py\<close> swallows an \<^verbatim>\<open>OSError\<close> of \<^verbatim>\<open>os.remove\<close>, \<^verbatim>\<open>ser.py\<close> lets it escape).
\<close>

definition basename :: "string \<Rightarrow> string" where
  "basename p = rev (takeWhile (\<lambda>c. c \<noteq> CHR ''/'') (rev p))"

definition path_join :: "string \<Rightarrow> string \<Rightarrow> string" where
  "path_join a b =
     (if b \<noteq> [] \<and> hd b = CHR ''/'' then b
      else if a = [] \<or> last a = CHR ''/'' then a @ b
      else a @ ''/'' @ b)"

record marker =
  holder :: string
  mtime :: real

type_synonym lockdir = "string \<rightharpoonup> marker"

record coordinator =
  coordination_dir :: string
  coord_instance_id :: string

definition lock_path :: "coordinator \<Rightarrow> string \<Rightarrow> string" where
  "lock_path c file_path = path_join (coordination_dir c) (basename file_path @ ''.lock'')"

definition is_file_being_processed ::
  "coordinator \<Rightarrow> real \<Rightarrow> string \<Rightarrow> lockdir \<Rightarrow> bool \<times> lockdir" where
  "is_file_being_processed c now file_path L =
     (let lock_file = lock_path c file_path in
      case L lock_file of
        Some m \<Rightarrow>
          if now - mtime m > 600 then (False, L(lock_file := None))
          else (True, L)
      | None \<Rightarrow> (False, L))"

definition lock_file :: "coordinator \<Rightarrow> real \<Rightarrow> string \<Rightarrow> lockdir \<Rightarrow> lockdir" where
  "lock_file c now file_path L =
     L(lock_path c file_path \<mapsto> \<lparr>holder = coord_instance_id c, mtime = now\<rparr>)"

definition unlock_file :: "coordinator \<Rightarrow> string \<Rightarrow> lockdir \<Rightarrow> lockdir" where
  "unlock_file c file_path L =
     (let lock_file = lock_path c file_path in
      if L lock_file \<noteq> None then L(lock_file := None) else L)"

definition is_work_file :: "string \<Rightarrow> bool" where
  "is_work_file f \<longleftrightarrow> prefix ''anime_'' f \<and> suffix ''.json'' f"

text \<open>
  The loop of \<^verbatim>\<open>get_available_files\<close> over the selected names.  Every call of
  \<^verbatim>\<open>is_file_being_processed\<close> reads the clock anew; \<open>clk f\<close> is the reading taken when the
  marker of \<open>f\<close> is examined.
\<close>

fun scan_files ::
  "coordinator \<Rightarrow> (string \<Rightarrow> real) \<Rightarrow> string \<Rightarrow> string list \<Rightarrow> lockdir \<Rightarrow> string list \<times> lockdir" where
  "scan_files c clk directory [] L = ([], L)"
| "scan_files c clk directory (json_file # rest) L =
     (let file_path = path_join directory json_file;
          (busy, L1) = is_file_being_processed c (clk json_file) file_path L;
          (available_files, L2) = scan_files c clk directory rest L1
      in (if \<not> busy then file_path # available_files else available_files, L2))"

definition get_available_files ::
  "coordinator \<Rightarrow> (string \<Rightarrow> real) \<Rightarrow> string \<Rightarrow> string list \<Rightarrow> lockdir \<Rightarrow> string list \<times> lockdir" where
  "get_available_files c clk directory listing L =
     scan_files c clk directory (filter is_work_file listing) L"

text \<open>The state of the marker of a catalogue name, as the scan sees it.\<close>

definition marker_of :: "coordinator \<Rightarrow> string \<Rightarrow> string \<Rightarrow> string" where
  "marker_of c directory json_file = lock_path c (path_join directory json_file)"

definition live_lock :: "coordinator \<Rightarrow> (string \<Rightarrow> real) \<Rightarrow> string \<Rightarrow> lockdir \<Rightarrow> string \<Rightarrow> bool" where
  "live_lock c clk directory L json_file =
     (case L (marker_of c directory json_file) of
        Some m \<Rightarrow> \<not> (clk json_file - mtime m > 600)
      | None \<Rightarrow> False)"

definition expired_lock :: "coordinator \<Rightarrow> (string \<Rightarrow> real) \<Rightarrow> string \<Rightarrow> lockdir \<Rightarrow> string \<Rightarrow> bool" where
  "expired_lock c clk directory L json_file =
     (case L (marker_of c directory json_file) of
        Some m \<Rightarrow> clk json_file - mtime m > 600
      | None \<Rightarrow> False)"

text \<open>A marker directory with one expired and one fresh marker, and a directory listing.\<close>

definition demo_coordinator :: coordinator where
  "demo_coordinator = \<lparr>coordination_dir = ''.coordination'', coord_instance_id = ''0a1b2c3d''\<rparr>"

definition demo_locks :: lockdir where
  "demo_locks =
     [''.coordination/anime_a.json.lock'' \<mapsto> \<lparr>holder = ''e4f5a6b7'', mtime = 399\<rparr>,
      ''.coordination/anime_b.json.lock'' \<mapsto> \<lparr>holder = ''c8d9e0f1'', mtime = 400\<rparr>]"

definition demo_listing :: "string list" where
  "demo_listing = [''anime_a.json'', ''notes.txt'', ''anime_b.json'', ''anime_c.json'']"

section \<open>The pool of browsers and tabs\<close>

text \<open>
  \<^verbatim>\<open>self.browsers\<close> is a list of dictionaries with the keys \<^verbatim>\<open>tabs_available\<close> (a counter) and
  \<^verbatim>\<open>tabs\<close> (the free list of pages).  A page is identified by the browser position and the
  tab index under which \<^verbatim>\<open>init_browsers\<close> created it.  Launching a browser and creating a
  tab may fail; the failure is logged and the loop goes on, so \<open>launch_ok\<close> and \<open>tab_ok\<close>
  say which attempts succeed.  A \<^verbatim>\<open>browser_info\<close> is handed out by reference; here it is its
  position in the list.
\<close>

type_synonym tab = "nat \<times> nat"

record browser_info =
  tabs_available :: int
  tabs :: "tab list"

definition init_browsers ::
  "int \<Rightarrow> int \<Rightarrow> (nat \<Rightarrow> bool) \<Rightarrow> (nat \<Rightarrow> nat \<Rightarrow> bool) \<Rightarrow> browser_info list" where
  "init_browsers max_browsers max_tabs_per_browser launch_ok tab_ok =
     map (\<lambda>browser_idx.
            \<lparr>tabs_available = max_tabs_per_browser,
             tabs = map (Pair browser_idx)
                      (filter (tab_ok browser_idx) [0..<nat max_tabs_per_browser])\<rparr>)
         [0..<length (filter launch_ok [0..<nat max_browsers])]"

text \<open>
  One pass of the \<^verbatim>\<open>for browser_info in self.browsers\<close> loop of \<^verbatim>\<open>get_available_tab\<close>: the
  first browser with a positive counter and a non-empty free list gives up its first page.
  \<open>None\<close> is the exhausted pool: \<^verbatim>\<open>ser.py\<close> returns \<^verbatim>\<open>(None, None)\<close> there, \<^verbatim>\<open>v.py\<close> sleeps and
  scans again; neither changes the pool.
\<close>

fun get_available_tab :: "browser_info list \<Rightarrow> ((tab \<times> nat) \<times> browser_info list) option" where
  "get_available_tab [] = None"
| "get_available_tab (b # bs) =
     (if tabs_available b > 0 \<and> tabs b \<noteq> [] then
        Some ((hd (tabs b), 0),
              b\<lparr>tabs_available := tabs_available b - 1, tabs := tl (tabs b)\<rparr> # bs)
      else (case get_available_tab bs of
              None \<Rightarrow> None
            | Some ((tab, i), bs') \<Rightarrow> Some ((tab, Suc i), b # bs')))"

definition release_tab :: "tab \<Rightarrow> nat \<Rightarrow> browser_info list \<Rightarrow> browser_info list" where
  "release_tab tab i bs =
     bs[i := (bs ! i)\<lparr>tabs := tabs (bs ! i) @ [tab],
                      tabs_available := tabs_available (bs ! i) + 1\<rparr>]"

text \<open>
  The pool together with the pages that tasks currently hold.  \<^verbatim>\<open>release_tab\<close> is only
  called in the \<^verbatim>\<open>finally\<close> block of \<^verbatim>\<open>process_single_episode\<close>, by the task that acquired
  the page, with the page and browser it was given: \<open>Release k\<close> is that call by the holder
  of the \<open>k\<close>-th page handed out and not yet returned.  Neither function awaits between
  reading and writing the pool, so each call is one atomic step of the event loop.
\<close>

record pool_state =
  browsers :: "browser_info list"
  checked_out :: "(tab \<times> nat) list"

datatype pool_call = Acquire | Release nat

fun pool_step :: "pool_call \<Rightarrow> pool_state \<Rightarrow> pool_state" where
  "pool_step Acquire s =
     (case get_available_tab (browsers s) of
        None \<Rightarrow> s
      | Some (handle, bs') \<Rightarrow> s\<lparr>browsers := bs', checked_out := checked_out s @ [handle]\<rparr>)"
| "pool_step (Release k) s =
     (if k < length (checked_out s) then
        s\<lparr>browsers := release_tab (fst (checked_out s ! k)) (snd (checked_out s ! k)) (browsers s),
          checked_out := take k (checked_out s) @ drop (Suc k) (checked_out s)\<rparr>
      else s)"

definition run_pool :: "pool_call list \<Rightarrow> pool_state \<Rightarrow> pool_state" where
  "run_pool calls s = fold pool_step calls s"

definition new_pool ::
  "int \<Rightarrow> int \<Rightarrow> (nat \<Rightarrow> bool) \<Rightarrow> (nat \<Rightarrow> nat \<Rightarrow> bool) \<Rightarrow> pool_state" where
  "new_pool max_browsers max_tabs_per_browser launch_ok tab_ok =
     \<lparr>browsers = init_browsers max_browsers max_tabs_per_browser launch_ok tab_ok,
      checked_out = []\<rparr>"

definition free_tabs :: "pool_state \<Rightarrow> tab list" where
  "free_tabs s = concat (map tabs (browsers s))"

definition free_count :: "pool_state \<Rightarrow> nat" where
  "free_count s = length (free_tabs s)"

definition checked_out_count :: "pool_state \<Rightarrow> nat" where
  "checked_out_count s = length (checked_out s)"

text \<open>Every page of the pool, free or held; and the invariant that a held page names a browser of the pool.\<close>

definition all_tabs :: "pool_state \<Rightarrow> tab list" where
  "all_tabs s = free_tabs s @ map fst (checked_out s)"

definition owners_ok :: "pool_state \<Rightarrow> bool" where
  "owners_ok s \<longleftrightarrow> list_all (\<lambda>h. snd h < length (browsers s)) (checked_out s)"

section \<open>Work items in storage and in memory\<close>

text \<open>
  A catalogue file holds \<^verbatim>\<open>{"anime": [{..., "episodes": [{"url": ..., "iframe_url": ...}]}]}\<close>.
  An episode keeps its \<^verbatim>\<open>url\<close>, its \<^verbatim>\<open>iframe_url\<close> (absent, \<^verbatim>\<open>null\<close> or a string) and its other
  keys; an anime keeps its other keys and its episodes (a missing list reads as empty, as
  \<^verbatim>\<open>.get('episodes', [])\<close> does).  A file that is missing or is not JSON makes the read raise.
\<close>

record episode =
  url :: "string option"
  iframe_url :: "string option"
  other_keys :: string

type_synonym file_json = "(string \<times> episode list) list"

datatype content = Json file_json | Garbage

datatype error = FileNotFoundError | JSONDecodeError | ZeroDivisionError | ValueError

definition truthy :: "string option \<Rightarrow> bool" where
  "truthy v = (case v of None \<Rightarrow> False | Some s \<Rightarrow> s \<noteq> [])"

text \<open>
  \<^verbatim>\<open>json.loads\<close> builds one fresh dictionary per episode.  Both scripts then keep references to
  these dictionaries in a second list and write results into them, and \<^verbatim>\<open>ser.py\<close> also stores
  references back into the episode lists, so the objects live in a heap (a list indexed by
  reference) and an anime holds references.  \<^verbatim>\<open>json.dumps\<close> reads the heap through them.
\<close>

record work =
  heap :: "episode list"
  animes :: "(string \<times> nat list) list"

fun load_anime :: "nat \<Rightarrow> file_json \<Rightarrow> (string \<times> nat list) list" where
  "load_anime n [] = []"
| "load_anime n (a # rest) =
     (fst a, [n..<n + length (snd a)]) # load_anime (n + length (snd a)) rest"

definition json_loads :: "file_json \<Rightarrow> work" where
  "json_loads j = \<lparr>heap = concat (map snd j), animes = load_anime 0 j\<rparr>"

definition json_dumps :: "work \<Rightarrow> file_json" where
  "json_dumps d = map (\<lambda>a. (fst a, map (\<lambda>r. heap d ! r) (snd a))) (animes d)"

definition read_json :: "(string \<rightharpoonup> content) \<Rightarrow> string \<Rightarrow> error + work" where
  "read_json fs file_path =
     (case fs file_path of
        None \<Rightarrow> Inl FileNotFoundError
      | Some Garbage \<Rightarrow> Inl JSONDecodeError
      | Some (Json j) \<Rightarrow> Inr (json_loads j))"

text \<open>
  The episodes still to do, in file order: those whose \<^verbatim>\<open>iframe_url\<close> is missing, \<^verbatim>\<open>null\<close> or
  empty (\<^verbatim>\<open>if not episode.get('iframe_url')\<close>).
\<close>

definition pending :: "work \<Rightarrow> nat list" where
  "pending d = filter (\<lambda>r. \<not> truthy (iframe_url (heap d ! r))) (concat (map snd (animes d)))"

section \<open>One episode, one wave\<close>

text \<open>
  A task of a wave ends with a value or with an exception; \<^verbatim>\<open>asyncio.gather\<close> with
  \<^verbatim>\<open>return_exceptions=True\<close> collects either, in the order of the batch, once every task of the
  wave has ended.  \<open>extract\<close> is the collaborator as the task sees it once it holds a tab:
  the value of \<^verbatim>\<open>extract_iframe_url\<close>, or an exception that leaves the task.  A task whose
  episode has no \<^verbatim>\<open>url\<close> returns \<^verbatim>\<open>None\<close> without calling it.
\<close>

datatype outcome = Raised string | Returned "string option"

datatype event = Extract string | Wrote string file_json

definition process_single_episode :: "(string \<Rightarrow> outcome) \<Rightarrow> episode \<Rightarrow> outcome" where
  "process_single_episode extract ep =
     (if \<not> truthy (url ep) then Returned None else extract (the (url ep)))"

definition extract_calls :: "episode list \<Rightarrow> nat list \<Rightarrow> event list" where
  "extract_calls h batch =
     map (\<lambda>r. Extract (the (url (h ! r)))) (filter (\<lambda>r. truthy (url (h ! r))) batch)"




section \<open>Waves\<close>

text \<open>
  \<^verbatim>\<open>for i in range(0, len(pending), batch_size): batch = pending[i:i + batch_size]\<close>.
  \<open>range_from\<close> is Python's \<^verbatim>\<open>range\<close> with a positive step; a step of zero makes \<^verbatim>\<open>range\<close>
  raise \<^verbatim>\<open>ValueError\<close> and a negative one gives no index, which \<open>waves\<close> writes out.
\<close>

function range_from :: "nat \<Rightarrow> nat \<Rightarrow> nat \<Rightarrow> nat list" where
  "range_from i n step = (if step = 0 \<or> n \<le> i then [] else i # range_from (i + step) n step)"
  by pat_completeness auto
termination
  by (relation "measure (\<lambda>(i, n, step). n - i)") auto

declare range_from.simps [simp del]

definition batches :: "nat \<Rightarrow> 'a list \<Rightarrow> 'a list list" where
  "batches batch_size xs =
     map (\<lambda>i. take batch_size (drop i xs)) (range_from 0 (length xs) batch_size)"

definition waves :: "int \<Rightarrow> 'a list \<Rightarrow> error + 'a list list" where
  "waves batch_size xs =
     (if batch_size = 0 then Inl ValueError
      else if batch_size < 0 then Inr []
      else Inr (batches (nat batch_size) xs))"

section \<open>The extractor and its surroundings\<close>

text \<open>
  \<open>extractor\<close> holds the attributes of \<^verbatim>\<open>MultiInstanceAnimeExtractor\<close> that \<^verbatim>\<open>process_file\<close> and
  \<^verbatim>\<open>process_episode_batch\<close> read or write; \<^verbatim>\<open>files_processed_count\<close> exists in \<^verbatim>\<open>v.py\<close> only,
  \<^verbatim>\<open>current_file\<close> and \<^verbatim>\<open>current_file_progress\<close> in \<^verbatim>\<open>ser.py\<close> only.  \<open>world\<close> is what lies outside
  the object: the clock, the marker directory, the catalogue files, and for \<^verbatim>\<open>ser.py\<close> the
  shared \<^verbatim>\<open>GlobalProgress\<close> and the lines of \<^verbatim>\<open>failed_episodes.jsonl\<close> (without their
  timestamps); both are optional constructor arguments, \<open>None\<close> when not given.  \<open>trace\<close>
  records the extraction calls and the writes of catalogue files in the order they happen;
  the calls of one wave run concurrently and are listed in batch order.
\<close>

record file_progress =
  file_name :: string
  fp_total_episodes :: int
  fp_processed :: int
  fp_skipped :: int
  fp_remaining :: int

record extractor =
  instance_id :: string
  max_browsers :: int
  max_tabs_per_browser :: int
  coordinator :: coordinator
  processed_count :: int
  error_count :: int
  files_processed_count :: int
  current_file :: "string option"
  current_file_progress :: file_progress

record global_progress =
  completed_files :: "string set"
  currently_processing :: "string \<rightharpoonup> string"
  total_files :: int
  total_episodes :: int
  completed_episodes :: int

record world =
  now :: real
  locks :: lockdir
  files :: "string \<rightharpoonup> content"
  trace :: "event list"
  progress :: "global_progress option"
  failure_log :: "(episode \<times> string) list option"

definition mark_file_started :: "string \<Rightarrow> string \<Rightarrow> global_progress \<Rightarrow> global_progress" where
  "mark_file_started file_path iid gp =
     gp\<lparr>currently_processing := (currently_processing gp)(file_path \<mapsto> iid)\<rparr>"

definition mark_file_completed :: "string \<Rightarrow> global_progress \<Rightarrow> global_progress" where
  "mark_file_completed file_path gp =
     gp\<lparr>completed_files := insert file_path (completed_files gp),
        currently_processing := (currently_processing gp)(file_path := None)\<rparr>"

definition increment_completed_episodes :: "global_progress \<Rightarrow> global_progress" where
  "increment_completed_episodes gp = gp\<lparr>completed_episodes := completed_episodes gp + 1\<rparr>"

text \<open>The \<^verbatim>\<open>'remaining'\<close> entry of \<^verbatim>\<open>get_status\<close>.\<close>

definition remaining :: "global_progress \<Rightarrow> int" where
  "remaining gp =
     total_files gp - int (card (completed_files gp)) - int (card (dom (currently_processing gp)))"

definition log_failure :: "episode \<Rightarrow> string \<Rightarrow> world \<Rightarrow> world" where
  "log_failure episode_data why w =
     w\<lparr>failure_log := map_option (\<lambda>lines. lines @ [(episode_data, why)]) (failure_log w)\<rparr>"

section \<open>\<^verbatim>\<open>process_episode_batch\<close> and \<^verbatim>\<open>process_file\<close> of \<^verbatim>\<open>v.py\<close>\<close>

text \<open>
  \<^verbatim>\<open>batch_size = self.max_browsers * self.max_tabs_per_browser\<close> in \<^verbatim>\<open>v.py\<close>,
  \<^verbatim>\<open>batch_size = 5\<close> in \<^verbatim>\<open>ser.py\<close>.
\<close>

definition batch_size_v :: "extractor \<Rightarrow> int" where
  "batch_size_v x = max_browsers x * max_tabs_per_browser x"

definition batch_size_ser :: int where
  "batch_size_ser = 5"

definition settle_v :: "nat \<times> outcome \<Rightarrow> episode list \<times> extractor \<Rightarrow> episode list \<times> extractor" where
  "settle_v p s =
     (let r = fst p; result = snd p; h = fst s; x = snd s in
      case result of
        Raised e \<Rightarrow>
          (h[r := (h ! r)\<lparr>iframe_url := None\<rparr>], x\<lparr>error_count := error_count x + 1\<rparr>)
      | Returned v \<Rightarrow>
          (h[r := (h ! r)\<lparr>iframe_url := v\<rparr>],
           if truthy v then x\<lparr>processed_count := processed_count x + 1\<rparr>
           else x\<lparr>error_count := error_count x + 1\<rparr>))"

definition process_episode_batch_v ::
  "(string \<Rightarrow> outcome) \<Rightarrow> nat list \<Rightarrow> work \<times> extractor \<times> world \<Rightarrow> work \<times> extractor \<times> world" where
  "process_episode_batch_v extract episodes_batch s =
     (let d = fst s; x = fst (snd s); w = snd (snd s);
          results = map (\<lambda>r. process_single_episode extract (heap d ! r)) episodes_batch;
          w1 = w\<lparr>trace := trace w @ extract_calls (heap d) episodes_batch\<rparr>;
          hx = fold settle_v (zip episodes_batch results) (heap d, x)
      in (d\<lparr>heap := fst hx\<rparr>, snd hx, w1))"

definition write_json :: "string \<Rightarrow> work \<Rightarrow> world \<Rightarrow> world" where
  "write_json file_path d w =
     w\<lparr>files := (files w)(file_path \<mapsto> Json (json_dumps d)),
       trace := trace w @ [Wrote file_path (json_dumps d)]\<rparr>"

text \<open>One turn of the loop over the batches in \<^verbatim>\<open>v.py\<close>: the wave, then the save.\<close>

definition wave_v ::
  "(string \<Rightarrow> outcome) \<Rightarrow> string \<Rightarrow> nat list \<Rightarrow> work \<times> extractor \<times> world \<Rightarrow> work \<times> extractor \<times> world" where
  "wave_v extract file_path batch s =
     (let s1 = process_episode_batch_v extract batch s
      in (fst s1, fst (snd s1), write_json file_path (fst s1) (snd (snd s1))))"

text \<open>
  The \<^verbatim>\<open>try\<close> block: \<open>None\<close> when it reaches one of its \<^verbatim>\<open>return True\<close>, \<open>Some e\<close> when \<open>e\<close> is
  raised, with the state reached by then.  With a batch size of zero the line that computes
  \<^verbatim>\<open>total_batches\<close> divides by zero.
\<close>

definition process_file_body_v ::
  "(string \<Rightarrow> outcome) \<Rightarrow> string \<Rightarrow> extractor \<times> world \<Rightarrow> error option \<times> extractor \<times> world" where
  "process_file_body_v extract file_path s =
     (let x = fst s; w = snd s;
          w1 = w\<lparr>locks := lock_file (coordinator x) (now w) file_path (locks w)\<rparr>
      in case read_json (files w1) file_path of
           Inl e \<Rightarrow> (Some e, x, w1)
         | Inr data \<Rightarrow>
             (let all_pending_episodes = pending data in
              if all_pending_episodes = [] then
                (None, x\<lparr>files_processed_count := files_processed_count x + 1\<rparr>, w1)
              else
                (let batch_size = batch_size_v x in
                 if batch_size = 0 then (Some ZeroDivisionError, x, w1)
                 else case waves batch_size all_pending_episodes of
                        Inl e \<Rightarrow> (Some e, x, w1)
                      | Inr bs \<Rightarrow>
                          (let s' = fold (wave_v extract file_path) bs (data, x, w1);
                               x' = fst (snd s')
                           in (None, x'\<lparr>files_processed_count := files_processed_count x' + 1\<rparr>,
                               snd (snd s'))))))"

text \<open>
  \<^verbatim>\<open>except Exception: return False\<close> and \<^verbatim>\<open>finally: unlock_file\<close>; \<^verbatim>\<open>self.coordinator\<close> is set
  in the constructor and never assigned again.
\<close>

definition process_file_v ::
  "(string \<Rightarrow> outcome) \<Rightarrow> string \<Rightarrow> extractor \<times> world \<Rightarrow> bool \<times> extractor \<times> world" where
  "process_file_v extract file_path s =
     (let r = process_file_body_v extract file_path s;
          x = fst (snd r); w = snd (snd r)
      in (fst r = None, x,
          w\<lparr>locks := unlock_file (coordinator (fst s)) file_path (locks w)\<rparr>))"

section \<open>\<^verbatim>\<open>process_episode_batch\<close> and \<^verbatim>\<open>process_file\<close> of \<^verbatim>\<open>ser.py\<close>\<close>

text \<open>
  The state of the loop over \<^verbatim>\<open>zip(episodes_batch, results)\<close>: the heap, the extractor, the world
  and the two counters \<^verbatim>\<open>processed_in_batch\<close> and \<^verbatim>\<open>errors_in_batch\<close>.
\<close>

record batch_state =
  bs_heap :: "episode list"
  bs_self :: extractor
  bs_world :: world
  processed_in_batch :: int
  errors_in_batch :: int

definition settle_ser :: "nat \<times> outcome \<Rightarrow> batch_state \<Rightarrow> batch_state" where
  "settle_ser p s =
     (let r = fst p; result = snd p; h = bs_heap s; x = bs_self s; w = bs_world s in
      case result of
        Raised e \<Rightarrow>
          (let h' = h[r := (h ! r)\<lparr>iframe_url := None\<rparr>] in
           s\<lparr>bs_heap := h',
             bs_self := x\<lparr>error_count := error_count x + 1\<rparr>,
             errors_in_batch := errors_in_batch s + 1,
             bs_world := log_failure (h' ! r) e w\<rparr>)
      | Returned v \<Rightarrow>
          (let h' = h[r := (h ! r)\<lparr>iframe_url := v\<rparr>] in
           if truthy v then
             s\<lparr>bs_heap := h',
               bs_self := x\<lparr>processed_count := processed_count x + 1\<rparr>,
               processed_in_batch := processed_in_batch s + 1,
               bs_world := w\<lparr>progress := map_option increment_completed_episodes (progress w)\<rparr>\<rparr>
           else
             s\<lparr>bs_heap := h',
               bs_self := x\<lparr>error_count := error_count x + 1\<rparr>,
               errors_in_batch := errors_in_batch s + 1,
               bs_world := log_failure (h' ! r) ''No iframe found (None result)'' w\<rparr>))"

definition process_episode_batch_ser ::
  "(string \<Rightarrow> outcome) \<Rightarrow> nat list \<Rightarrow> work \<times> extractor \<times> world \<Rightarrow> batch_state" where
  "process_episode_batch_ser extract episodes_batch s =
     (let d = fst s; x = fst (snd s); w = snd (snd s);
          results = map (\<lambda>r. process_single_episode extract (heap d ! r)) episodes_batch;
          w1 = w\<lparr>trace := trace w @ extract_calls (heap d) episodes_batch\<rparr>
      in fold settle_ser (zip episodes_batch results)
           \<lparr>bs_heap = heap d, bs_self = x, bs_world = w1,
            processed_in_batch = 0, errors_in_batch = 0\<rparr>)"

text \<open>
  \<^verbatim>\<open>ser.py\<close> then stores every updated episode back: in each anime, the first episode with the
  same \<^verbatim>\<open>url\<close> is replaced by the updated one (\<^verbatim>\<open>break\<close> leaves the inner loop only).
\<close>

fun replace_first :: "('a \<Rightarrow> bool) \<Rightarrow> 'a \<Rightarrow> 'a list \<Rightarrow> 'a list" where
  "replace_first P u [] = []"
| "replace_first P u (r # rs) = (if P r then u # rs else r # replace_first P u rs)"

definition store_back :: "episode list \<Rightarrow> nat \<Rightarrow> (string \<times> nat list) list \<Rightarrow> (string \<times> nat list) list" where
  "store_back h updated_episode as =
     map (\<lambda>a. (fst a, replace_first (\<lambda>original. url (h ! original) = url (h ! updated_episode))
                          updated_episode (snd a))) as"

definition wave_ser ::
  "(string \<Rightarrow> outcome) \<Rightarrow> nat list \<Rightarrow> work \<times> extractor \<times> world \<Rightarrow> work \<times> extractor \<times> world" where
  "wave_ser extract batch s =
     (let b = process_episode_batch_ser extract batch s;
          x = bs_self b;
          fp = current_file_progress x;
          x1 = x\<lparr>current_file_progress :=
                  fp\<lparr>fp_processed := fp_processed fp + processed_in_batch b,
                     fp_remaining := fp_remaining fp - (processed_in_batch b + errors_in_batch b)\<rparr>\<rparr>;
          d = fst s
      in (d\<lparr>heap := bs_heap b, animes := fold (store_back (bs_heap b)) batch (animes d)\<rparr>,
          x1, bs_world b))"

definition idle :: "extractor \<Rightarrow> extractor" where
  "idle x = x\<lparr>current_file := None,
              current_file_progress := (current_file_progress x)\<lparr>file_name := ''Idle''\<rparr>\<rparr>"

definition process_file_body_ser ::
  "(string \<Rightarrow> outcome) \<Rightarrow> string \<Rightarrow> extractor \<times> world \<Rightarrow> error option \<times> extractor \<times> world" where
  "process_file_body_ser extract file_path s =
     (let x = fst s; w = snd s;
          w1 = w\<lparr>locks := lock_file (coordinator x) (now w) file_path (locks w)\<rparr>
      in case read_json (files w1) file_path of
           Inl e \<Rightarrow> (Some e, x, w1)
         | Inr data \<Rightarrow>
             (let all_episodes = concat (map snd (animes data));
                  episodes_to_process = pending data;
                  x1 = x\<lparr>current_file_progress :=
                         \<lparr>file_name = the (current_file x),
                          fp_total_episodes = int (length all_episodes),
                          fp_processed = 0,
                          fp_skipped =
                            int (length (filter (\<lambda>r. truthy (iframe_url (heap data ! r))) all_episodes)),
                          fp_remaining = int (length episodes_to_process)\<rparr>\<rparr>;
                  batch_size = batch_size_ser
              in case waves batch_size episodes_to_process of
                   Inl e \<Rightarrow> (Some e, x1, w1)
                 | Inr bs \<Rightarrow>
                     (let s' = fold (wave_ser extract) bs (data, x1, w1);
                          w2 = write_json file_path (fst s') (snd (snd s'));
                          w3 = w2\<lparr>progress := map_option (mark_file_completed file_path) (progress w2)\<rparr>
                      in (None, idle (fst (snd s')), w3))))"

text \<open>
  \<^verbatim>\<open>current_file\<close> and \<^verbatim>\<open>mark_file_started\<close> come before the \<^verbatim>\<open>try\<close>; the \<^verbatim>\<open>except\<close> branch calls
  \<^verbatim>\<open>mark_file_completed\<close> too, resets the progress and returns \<^verbatim>\<open>False\<close>; \<^verbatim>\<open>finally\<close> unlocks.
\<close>

definition process_file_ser ::
  "(string \<Rightarrow> outcome) \<Rightarrow> string \<Rightarrow> extractor \<times> world \<Rightarrow> bool \<times> extractor \<times> world" where
  "process_file_ser extract file_path s =
     (let x0 = (fst s)\<lparr>current_file := Some (basename file_path)\<rparr>;
          w0 = (snd s)\<lparr>progress :=
                  map_option (mark_file_started file_path (instance_id (fst s))) (progress (snd s))\<rparr>;
          r = process_file_body_ser extract file_path (x0, w0);
          x = fst (snd r); w = snd (snd r)
      in case fst r of
           None \<Rightarrow>
             (True, x, w\<lparr>locks := unlock_file (coordinator (fst s)) file_path (locks w)\<rparr>)
         | Some e \<Rightarrow>
             (let w' = w\<lparr>progress := map_option (mark_file_completed file_path) (progress w)\<rparr>
              in (False, idle x,
                  w'\<lparr>locks := unlock_file (coordinator (fst s)) file_path (locks w')\<rparr>)))"

section \<open>Sample data\<close>

text \<open>
  An extractor with the constructor's defaults (three browsers of three tabs), a catalogue
  file of seven episodes of which six are still to do, and a collaborator that finds a
  player for some addresses, finds none for others and fails on one.
\<close>

definition idle_progress :: file_progress where
  "idle_progress =
     \<lparr>file_name = ''Idle'', fp_total_episodes = 0, fp_processed = 0, fp_skipped = 0,
      fp_remaining = 0\<rparr>"

definition demo_extractor :: extractor where
  "demo_extractor =
     \<lparr>instance_id = ''INST-01'', max_browsers = 3, max_tabs_per_browser = 3,
      coordinator = demo_coordinator, processed_count = 0, error_count = 0,
      files_processed_count = 0, current_file = None, current_file_progress = idle_progress\<rparr>"

definition small_extractor :: extractor where
  "small_extractor = demo_extractor\<lparr>max_browsers := 1, max_tabs_per_browser := 2\<rparr>"

definition ep :: "string \<Rightarrow> string option \<Rightarrow> episode" where
  "ep u i = \<lparr>url = Some u, iframe_url = i, other_keys = []\<rparr>"

definition demo_json :: file_json where
  "demo_json =
     [(''A'', [ep ''u1'' None, ep ''u2'' (Some ''https://kwik.example/e/2''), ep ''u3'' None]),
      (''B'', [ep ''u4'' None, ep ''u5'' None, ep ''u6'' None, ep ''u7'' None])]"

definition done_json :: file_json where
  "done_json =
     [(''A'', [ep ''u1'' (Some ''https://kwik.example/e/1''),
              ep ''u2'' (Some ''https://kwik.example/e/2'')])]"

definition demo_extract :: "string \<Rightarrow> outcome" where
  "demo_extract u =
     (if u = ''u3'' then Raised ''boom''
      else if u = ''u4'' then Returned None
      else Returned (Some (''https://kwik.example/e/'' @ u)))"

definition demo_world :: world where
  "demo_world =
     \<lparr>now = 1000, locks = Map.empty,
      files = [''data/anime_a.json'' \<mapsto> Json demo_json,
               ''data/anime_d.json'' \<mapsto> Json done_json,
               ''data/anime_g.json'' \<mapsto> Garbage],
      trace = [], progress = None, failure_log = None\<rparr>"

section \<open>Stopping between waves\<close>

text \<open>
  The state of \<^verbatim>\<open>process_file\<close> when the first \<open>k\<close> turns of its loop over the batches are
  complete: what a run that is stopped at that point leaves behind.
\<close>

definition is_write :: "event \<Rightarrow> bool" where
  "is_write e = (case e of Wrote p j \<Rightarrow> True | Extract u \<Rightarrow> False)"







text \<open>
  The same world with the shared objects of \<^verbatim>\<open>ser.py\<close>'s \<^verbatim>\<open>main\<close>: a \<^verbatim>\<open>GlobalProgress\<close> over three
  files and an empty failure log; and a \<^verbatim>\<open>GlobalProgress\<close> in which the malformed file has been
  marked completed by an earlier pass.
\<close>

definition demo_progress :: global_progress where
  "demo_progress =
     \<lparr>completed_files = {}, currently_processing = Map.empty, total_files = 3,
      total_episodes = 9, completed_episodes = 3\<rparr>"

definition logging_world :: world where
  "logging_world = demo_world\<lparr>progress := Some demo_progress, failure_log := Some []\<rparr>"

definition second_pass_progress :: global_progress where
  "second_pass_progress = demo_progress\<lparr>completed_files := {''data/anime_g.json''}\<rparr>"

definition second_pass_world :: world where
  "second_pass_world = demo_world\<lparr>progress := Some second_pass_progress, failure_log := Some []\<rparr>"

section \<open>The worker loop\<close>

text \<open>
  \<^verbatim>\<open>run_instance\<close> of \<^verbatim>\<open>v.py\<close> and of \<^verbatim>\<open>ser.py\<close> and \<^verbatim>\<open>worker_instance\<close> of \<^verbatim>\<open>allanime.py\<close> are the same
  loop: scan; when the scan is empty sleep 30 seconds and scan once more, and \<^verbatim>\<open>break\<close> when
  that is empty too; otherwise choose a file, process it and sleep 5 seconds.  The three
  differ in the scan, in the choice (\<^verbatim>\<open>random.choice\<close>, or the first file in \<^verbatim>\<open>allanime.py\<close>) and
  in \<^verbatim>\<open>process_file\<close>.  A scan may raise: \<^verbatim>\<open>v.py\<close> and \<^verbatim>\<open>ser.py\<close> catch the exception around the loop and
  end the instance, \<^verbatim>\<open>allanime.py\<close> lets it end the task.  \<open>asleep d\<close> is what the world has become when
  \<^verbatim>\<open>asyncio.sleep(d)\<close> returns: the clock has advanced and other instances may have acted.
  One turn of the loop gives \<open>Some\<close> exit when it leaves the loop and \<open>None\<close> when it goes round
  again.
\<close>

datatype loop_exit = Shutdown | Crashed error

definition worker_iteration ::
  "('s \<Rightarrow> error + (string list \<times> 's)) \<Rightarrow> (real \<Rightarrow> 's \<Rightarrow> 's) \<Rightarrow> (string list \<Rightarrow> 's \<Rightarrow> string) \<Rightarrow>
   (string \<Rightarrow> 's \<Rightarrow> 's) \<Rightarrow> 's \<Rightarrow> loop_exit option \<times> 's" where
  "worker_iteration scan asleep choice process s =
     (case scan s of
        Inl e \<Rightarrow> (Some (Crashed e), s)
      | Inr r \<Rightarrow>
          (let available_files = fst r; s1 = snd r in
           if available_files = [] then
             (let s2 = asleep 30 s1 in
              case scan s2 of
                Inl e \<Rightarrow> (Some (Crashed e), s2)
              | Inr r2 \<Rightarrow>
                  (let available_files2 = fst r2; s3 = snd r2 in
                   if available_files2 = [] then (Some Shutdown, s3)
                   else (None, asleep 5 (process (choice available_files2 s3) s3))))
           else (None, asleep 5 (process (choice available_files s1) s1))))"

text \<open>
  \<^verbatim>\<open>while True\<close>, for at most \<open>n\<close> turns: \<open>None\<close> says that the instance is still in its loop after
  \<open>n\<close> turns.
\<close>

fun worker_loop :: "nat \<Rightarrow> ('s \<Rightarrow> loop_exit option \<times> 's) \<Rightarrow> 's \<Rightarrow> loop_exit option \<times> 's" where
  "worker_loop 0 turn s = (None, s)"
| "worker_loop (Suc n) turn s =
     (case fst (turn s) of
        Some e \<Rightarrow> (Some e, snd (turn s))
      | None \<Rightarrow> worker_loop n turn (snd (turn s)))"




definition first_choice :: "string list \<Rightarrow> 's \<Rightarrow> string" where
  "first_choice available_files s = available_files ! 0"




text \<open>
  \<^verbatim>\<open>worker_instance\<close> of \<^verbatim>\<open>allanime.py\<close>, over its own \<^verbatim>\<open>get_available_work\<close> and \<^verbatim>\<open>process_file\<close>, which
  work on a coordination file and are kept as parameters here.
\<close>

definition worker_instance ::
  "nat \<Rightarrow> ('s \<Rightarrow> error + (string list \<times> 's)) \<Rightarrow> (string \<Rightarrow> 's \<Rightarrow> 's) \<Rightarrow> (real \<Rightarrow> 's \<Rightarrow> 's) \<Rightarrow> 's \<Rightarrow>
   loop_exit option \<times> 's" where
  "worker_instance n get_available_work process_file asleep s =
     worker_loop n (worker_iteration get_available_work asleep first_choice process_file) s"



lemma takeWhile_no_slash:
  "CHR ''/'' \<notin> set n \<Longrightarrow> takeWhile (\<lambda>c. c \<noteq> CHR ''/'') (rev n @ CHR ''/'' # ys) = rev n"
  by (induction n rule: rev_induct) auto

lemma takeWhile_no_slash_all:
  "CHR ''/'' \<notin> set n \<Longrightarrow> takeWhile (\<lambda>c. c \<noteq> CHR ''/'') (rev n) = rev n"
  by (induction n rule: rev_induct) auto

lemma basename_append_slash:
  "CHR ''/'' \<notin> set n \<Longrightarrow> a = [] \<or> last a = CHR ''/'' \<Longrightarrow> basename (a @ n) = n"
  by (cases a rule: rev_cases) (auto simp: basename_def takeWhile_no_slash takeWhile_no_slash_all)

lemma basename_path_join:
  assumes "CHR ''/'' \<notin> set n"
  shows "basename (path_join d n) = n"
proof -
  have nohd: "n \<noteq> [] \<Longrightarrow> hd n \<noteq> CHR ''/''"
    using assms by (cases n) auto
  show ?thesis
  proof (cases "d = [] \<or> last d = CHR ''/''")
    case True
    then show ?thesis using nohd assms
      by (auto simp: path_join_def basename_append_slash)
  next
    case False
    have "basename ((d @ ''/'') @ n) = n"
      by (rule basename_append_slash[OF assms]) simp
    then show ?thesis using False nohd by (auto simp: path_join_def)
  qed
qed

lemma path_join_lock_inj:
  "path_join cd (n @ ''.lock'') = path_join cd (n' @ ''.lock'') \<Longrightarrow>
   CHR ''/'' \<notin> set n \<Longrightarrow> CHR ''/'' \<notin> set n' \<Longrightarrow> n = n'"
  by (cases n; cases n') (auto simp: path_join_def split: if_splits)

lemma marker_of_inj:
  "CHR ''/'' \<notin> set n \<Longrightarrow> CHR ''/'' \<notin> set n' \<Longrightarrow>
   marker_of c d n = marker_of c d n' \<longleftrightarrow> n = n'"
  by (auto simp: marker_of_def lock_path_def basename_path_join dest: path_join_lock_inj)

lemma is_file_being_processed_eq:
  "is_file_being_processed c (clk n) (path_join d n) L =
     (live_lock c clk d L n,
      if expired_lock c clk d L n then L(marker_of c d n := None) else L)"
  by (simp add: is_file_being_processed_def live_lock_def expired_lock_def marker_of_def
      split: option.splits)

lemma is_file_being_processed_clears:
  "\<not> fst (is_file_being_processed c t fp L) \<Longrightarrow>
   snd (is_file_being_processed c t fp L) (lock_path c fp) = None"
  by (auto simp: is_file_being_processed_def Let_def split: option.splits if_splits)

lemma live_lock_after_check:
  assumes "CHR ''/'' \<notin> set n" "CHR ''/'' \<notin> set n0"
  shows "live_lock c clk d (if expired_lock c clk d L n0 then L(marker_of c d n0 := None) else L) n
         = live_lock c clk d L n"
  using assms marker_of_inj[OF assms, of c d]
  by (auto simp: live_lock_def expired_lock_def split: option.splits)

lemma expired_lock_after_check:
  assumes "CHR ''/'' \<notin> set n" "CHR ''/'' \<notin> set n0"
  shows "expired_lock c clk d (if expired_lock c clk d L n0 then L(marker_of c d n0 := None) else L) n
         = (expired_lock c clk d L n \<and> \<not> (n = n0 \<and> expired_lock c clk d L n0))"
  using assms marker_of_inj[OF assms, of c d]
  by (auto simp: live_lock_def expired_lock_def split: option.splits)

lemma scan_files_available:
  "\<forall>n\<in>set ns. CHR ''/'' \<notin> set n \<Longrightarrow>
   fst (scan_files c clk d ns L) =
     map (path_join d) (filter (\<lambda>n. \<not> live_lock c clk d L n) ns)"
proof (induction ns arbitrary: L)
  case Nil
  then show ?case by simp
next
  case (Cons n0 ns)
  let ?L1 = "if expired_lock c clk d L n0 then L(marker_of c d n0 := None) else L"
  have rest: "fst (scan_files c clk d ns ?L1) =
      map (path_join d) (filter (\<lambda>n. \<not> live_lock c clk d ?L1 n) ns)"
    using Cons.prems by (intro Cons.IH) simp
  have same: "filter (\<lambda>n. \<not> live_lock c clk d ?L1 n) ns = filter (\<lambda>n. \<not> live_lock c clk d L n) ns"
    using Cons.prems by (intro filter_cong refl) (simp add: live_lock_after_check)
  show ?case
    using rest same
    by (simp add: is_file_being_processed_eq split_beta Let_def)
qed

lemma scan_files_markers:
  "\<forall>n\<in>set ns. CHR ''/'' \<notin> set n \<Longrightarrow>
   snd (scan_files c clk d ns L) k =
     (if \<exists>n\<in>set ns. k = marker_of c d n \<and> expired_lock c clk d L n then None else L k)"
proof (induction ns arbitrary: L)
  case Nil
  then show ?case by simp
next
  case (Cons n0 ns)
  let ?L1 = "if expired_lock c clk d L n0 then L(marker_of c d n0 := None) else L"
  have rest: "snd (scan_files c clk d ns ?L1) k =
      (if \<exists>n\<in>set ns. k = marker_of c d n \<and> expired_lock c clk d ?L1 n then None else ?L1 k)"
    using Cons.prems by (intro Cons.IH) simp
  have ex: "(\<exists>n\<in>set ns. k = marker_of c d n \<and> expired_lock c clk d ?L1 n) \<longleftrightarrow>
            (\<exists>n\<in>set ns. k = marker_of c d n \<and> expired_lock c clk d L n \<and> \<not> (n = n0 \<and> expired_lock c clk d L n0))"
    using Cons.prems by (intro bex_cong refl) (simp add: expired_lock_after_check)
  have "snd (scan_files c clk d (n0 # ns) L) k = snd (scan_files c clk d ns ?L1) k"
    by (simp add: is_file_being_processed_eq split_beta Let_def)
  also have "\<dots> = (if \<exists>n\<in>set (n0 # ns). k = marker_of c d n \<and> expired_lock c clk d L n then None else L k)"
    unfolding rest ex by auto
  finally show ?case .
qed

text \<open>
  Claim C4.  The availability scan \<^verbatim>\<open>get_available_files\<close> returns, in listing order, exactly the
  catalogue files (\<^verbatim>\<open>anime_*.json\<close>) whose marker is absent or older than 600: a file with a
  marker of age at most 600 is never returned.  Every marker older than 600 that the scan
  examines is gone from the marker directory afterwards and all other markers are untouched;
  and whenever \<^verbatim>\<open>is_file_being_processed\<close> answers \<open>False\<close>, the marker is already absent in the
  directory it hands back, so the removal precedes the report.  Names come from
  \<^verbatim>\<open>os.listdir\<close> and contain no slash.
\<close>

theorem get_available_files_reports_unlocked:
  assumes "\<forall>n\<in>set listing. CHR ''/'' \<notin> set n"
  shows "fst (get_available_files c clk d listing L) =
           map (path_join d) (filter (\<lambda>n. is_work_file n \<and> \<not> live_lock c clk d L n) listing)
       \<and> (\<forall>k. snd (get_available_files c clk d listing L) k =
            (if \<exists>n\<in>set listing. is_work_file n \<and> k = marker_of c d n \<and> expired_lock c clk d L n
             then None else L k))
       \<and> (\<forall>t fp L0. \<not> fst (is_file_being_processed c t fp L0) \<longrightarrow>
            snd (is_file_being_processed c t fp L0) (lock_path c fp) = None)"
proof -
  have ns: "\<forall>n\<in>set (filter is_work_file listing). CHR ''/'' \<notin> set n"
    using assms by simp
  have a: "fst (get_available_files c clk d listing L) =
           map (path_join d) (filter (\<lambda>n. is_work_file n \<and> \<not> live_lock c clk d L n) listing)"
    unfolding get_available_files_def scan_files_available[OF ns]
    by (simp add: conj_commute)
  have b: "snd (get_available_files c clk d listing L) k =
            (if \<exists>n\<in>set listing. is_work_file n \<and> k = marker_of c d n \<and> expired_lock c clk d L n
             then None else L k)" for k
    unfolding get_available_files_def scan_files_markers[OF ns]
    by auto
  show ?thesis using a b is_file_being_processed_clears by blast
qed

lemma demo_markers:
  "marker_of demo_coordinator ''data'' ''anime_a.json'' = ''.coordination/anime_a.json.lock''"
  "marker_of demo_coordinator ''data'' ''anime_b.json'' = ''.coordination/anime_b.json.lock''"
  "marker_of demo_coordinator ''data'' ''anime_c.json'' = ''.coordination/anime_c.json.lock''"
  by (simp_all add: marker_of_def lock_path_def path_join_def basename_def demo_coordinator_def)

lemma demo_work_files:
  "is_work_file ''anime_a.json''" "\<not> is_work_file ''notes.txt''"
  "is_work_file ''anime_b.json''" "is_work_file ''anime_c.json''"
  by (simp_all add: is_work_file_def suffix_def)

lemma demo_live:
  "\<not> live_lock demo_coordinator (\<lambda>_. 1000) ''data'' demo_locks ''anime_a.json''"
  "live_lock demo_coordinator (\<lambda>_. 1000) ''data'' demo_locks ''anime_b.json''"
  "\<not> live_lock demo_coordinator (\<lambda>_. 1000) ''data'' demo_locks ''anime_c.json''"
  by (simp_all add: live_lock_def demo_markers demo_locks_def)

lemma demo_expired:
  "expired_lock demo_coordinator (\<lambda>_. 1000) ''data'' demo_locks ''anime_a.json''"
  "\<not> expired_lock demo_coordinator (\<lambda>_. 1000) ''data'' demo_locks ''anime_b.json''"
  "\<not> expired_lock demo_coordinator (\<lambda>_. 1000) ''data'' demo_locks ''anime_c.json''"
  by (simp_all add: expired_lock_def demo_markers demo_locks_def)

theorem get_available_files_reports_unlocked_witness:
  "list_all (\<lambda>n. CHR ''/'' \<notin> set n) demo_listing
   \<and> fst (get_available_files demo_coordinator (\<lambda>_. 1000) ''data'' demo_listing demo_locks)
       = [''data/anime_a.json'', ''data/anime_c.json'']
   \<and> snd (get_available_files demo_coordinator (\<lambda>_. 1000) ''data'' demo_listing demo_locks)
       ''.coordination/anime_a.json.lock'' = None
   \<and> snd (get_available_files demo_coordinator (\<lambda>_. 1000) ''data'' demo_listing demo_locks)
       ''.coordination/anime_b.json.lock'' = Some \<lparr>holder = ''c8d9e0f1'', mtime = 400\<rparr>
   \<and> \<not> fst (is_file_being_processed demo_coordinator 1000 ''data/anime_a.json'' demo_locks)
   \<and> snd (is_file_being_processed demo_coordinator 1000 ''data/anime_a.json'' demo_locks)
       (lock_path demo_coordinator ''data/anime_a.json'') = None"
proof -
  have h: "\<forall>n\<in>set demo_listing. CHR ''/'' \<notin> set n"
    by (simp add: demo_listing_def)
  note t = get_available_files_reports_unlocked[OF h, of demo_coordinator "\<lambda>_. 1000" "''data''" demo_locks]
  have a: "fst (get_available_files demo_coordinator (\<lambda>_. 1000) ''data'' demo_listing demo_locks)
       = [''data/anime_a.json'', ''data/anime_c.json'']"
    unfolding t[THEN conjunct1]
    by (simp add: demo_listing_def demo_work_files demo_live path_join_def)
  have b: "snd (get_available_files demo_coordinator (\<lambda>_. 1000) ''data'' demo_listing demo_locks)
       ''.coordination/anime_a.json.lock'' = None"
    unfolding t[THEN conjunct2, THEN conjunct1, rule_format]
    by (simp add: demo_listing_def demo_work_files demo_expired demo_markers)
  have c: "snd (get_available_files demo_coordinator (\<lambda>_. 1000) ''data'' demo_listing demo_locks)
       ''.coordination/anime_b.json.lock'' = Some \<lparr>holder = ''c8d9e0f1'', mtime = 400\<rparr>"
    unfolding t[THEN conjunct2, THEN conjunct1, rule_format]
    by (simp add: demo_listing_def demo_work_files demo_expired demo_markers)
      (simp add: demo_locks_def)
  have d: "\<not> fst (is_file_being_processed demo_coordinator 1000 ''data/anime_a.json'' demo_locks)"
    by (simp add: is_file_being_processed_def lock_path_def path_join_def basename_def
        demo_coordinator_def demo_locks_def)
  have e: "snd (is_file_being_processed demo_coordinator 1000 ''data/anime_a.json'' demo_locks)
       (lock_path demo_coordinator ''data/anime_a.json'') = None"
    using t[THEN conjunct2, THEN conjunct2, rule_format, OF d] .
  have h': "list_all (\<lambda>n. CHR ''/'' \<notin> set n) demo_listing"
    using h by (simp add: list_all_iff)
  show ?thesis using h' a b c d e by blast
qed

lemma get_available_tab_Some:
  "get_available_tab bs = Some ((t, i), bs') \<Longrightarrow>
     length bs' = length bs \<and> i < length bs \<and>
     mset (concat (map tabs bs)) = add_mset t (mset (concat (map tabs bs')))"
proof (induction bs arbitrary: i bs')
  case Nil
  then show ?case by simp
next
  case (Cons b bs)
  show ?case
  proof (cases "tabs_available b > 0 \<and> tabs b \<noteq> []")
    case True
    then have "tabs b = hd (tabs b) # tl (tabs b)" by simp
    then have "mset (tabs b) = add_mset (hd (tabs b)) (mset (tl (tabs b)))"
      by (metis mset.simps(2))
    then show ?thesis using Cons.prems True by auto
  next
    case False
    then obtain j bs2 where r: "get_available_tab bs = Some ((t, j), bs2)"
      and e: "i = Suc j" "bs' = b # bs2"
      using Cons.prems by (auto split: option.splits)
    from Cons.IH[OF r] show ?thesis using e by simp
  qed
qed

lemma mset_concat_update:
  "i < length bs \<Longrightarrow>
   mset (concat (map tabs (bs[i := (bs ! i)\<lparr>tabs := tabs (bs ! i) @ [t], tabs_available := n\<rparr>]))) =
   add_mset t (mset (concat (map tabs bs)))"
proof (induction bs arbitrary: i)
  case Nil
  then show ?case by simp
next
  case (Cons b bs)
  then show ?case by (cases i) auto
qed

lemma release_tab_mset:
  "i < length bs \<Longrightarrow>
   mset (concat (map tabs (release_tab t i bs))) = add_mset t (mset (concat (map tabs bs)))"
  unfolding release_tab_def by (rule mset_concat_update)

lemma release_tab_length: "length (release_tab t i bs) = length bs"
  by (simp add: release_tab_def)

lemma mset_without_nth:
  "k < length xs \<Longrightarrow> add_mset (xs ! k) (mset (take k xs @ drop (Suc k) xs)) = mset xs"
proof -
  assume k: "k < length xs"
  then have "xs = take k xs @ xs ! k # drop (Suc k) xs" by (rule id_take_nth_drop)
  then have "mset xs = mset (take k xs @ xs ! k # drop (Suc k) xs)" by simp
  then show ?thesis by simp
qed

lemma pool_step_inv:
  assumes "owners_ok s"
  shows "owners_ok (pool_step c s) \<and> mset (all_tabs (pool_step c s)) = mset (all_tabs s)"
proof (cases c)
  case Acquire
  show ?thesis
  proof (cases "get_available_tab (browsers s)")
    case None
    then show ?thesis using assms Acquire by simp
  next
    case (Some r)
    obtain t i bs' where r: "r = ((t, i), bs')" by (metis surj_pair)
    from get_available_tab_Some[OF Some[unfolded r]]
    show ?thesis using assms Acquire Some r
      by (simp add: owners_ok_def all_tabs_def free_tabs_def)
  qed
next
  case (Release k)
  show ?thesis
  proof (cases "k < length (checked_out s)")
    case False
    then show ?thesis using assms Release by simp
  next
    case True
    let ?h = "checked_out s ! k"
    have own: "snd ?h < length (browsers s)"
      using assms True by (simp add: owners_ok_def list_all_length)
    have sub: "set (take k (checked_out s) @ drop (Suc k) (checked_out s)) \<subseteq> set (checked_out s)"
      using set_take_subset set_drop_subset by fastforce
    have "mset (map fst (checked_out s)) =
          add_mset (fst ?h) (mset (map fst (take k (checked_out s) @ drop (Suc k) (checked_out s))))"
      using mset_without_nth[OF True] by (metis image_mset_add_mset mset_map)
    then show ?thesis using assms Release True own sub
      by (auto simp: owners_ok_def all_tabs_def free_tabs_def release_tab_mset release_tab_length
          list_all_iff)
  qed
qed

lemma run_pool_inv:
  "owners_ok s \<Longrightarrow>
   owners_ok (run_pool calls s) \<and> mset (all_tabs (run_pool calls s)) = mset (all_tabs s)"
  unfolding run_pool_def
proof (induction calls arbitrary: s)
  case Nil
  then show ?case by simp
next
  case (Cons c calls)
  from pool_step_inv[OF Cons.prems, of c] Cons.IH[of "pool_step c s"]
  show ?case by simp
qed

lemma distinct_tab_rows:
  "distinct rows \<Longrightarrow> distinct (concat (map (\<lambda>i. map (Pair i) (filter (P i) [0..<n])) rows))"
  by (induction rows) (auto simp: distinct_map inj_on_def)

lemma distinct_init_tabs:
  "distinct (concat (map tabs (init_browsers mb mt lo to)))"
  using distinct_tab_rows[of "[0..<length (filter lo [0..<nat mb])]" to "nat mt"]
  by (simp add: init_browsers_def comp_def)

text \<open>
  Claim C2.  Start from the pool that \<^verbatim>\<open>init_browsers\<close> built, with nothing handed out, and let
  any sequence of \<^verbatim>\<open>get_available_tab\<close> and \<^verbatim>\<open>release_tab\<close> calls run.  The number of pages in
  the free lists plus the number of pages held by tasks stays equal to the number of pages
  created at initialisation, and the free lists and the held pages together never contain a
  page twice: no page is both free and held, and none is handed out to two holders.
\<close>

theorem pool_conservation:
  "free_count (run_pool calls (new_pool mb mt lo to)) +
     checked_out_count (run_pool calls (new_pool mb mt lo to)) =
   free_count (new_pool mb mt lo to)
   \<and> distinct (free_tabs (run_pool calls (new_pool mb mt lo to)) @
               map fst (checked_out (run_pool calls (new_pool mb mt lo to))))"
proof -
  let ?init = "new_pool mb mt lo to" and ?fin = "run_pool calls (new_pool mb mt lo to)"
  have o: "owners_ok ?init" by (simp add: owners_ok_def new_pool_def)
  have m: "mset (all_tabs ?fin) = mset (all_tabs ?init)" using run_pool_inv[OF o] by blast
  have "length (all_tabs ?fin) = length (all_tabs ?init)"
    using m by (metis size_mset)
  then have a: "free_count ?fin + checked_out_count ?fin = free_count ?init"
    by (simp add: all_tabs_def free_count_def checked_out_count_def new_pool_def)
  have "distinct (all_tabs ?init)"
    using distinct_init_tabs by (simp add: all_tabs_def free_tabs_def new_pool_def)
  then have "distinct (all_tabs ?fin)" using m by (metis mset_eq_imp_distinct_iff)
  then show ?thesis using a by (simp add: all_tabs_def)
qed


theorem pool_conservation_witness:
  "free_count (new_pool 2 2 (\<lambda>_. True) (\<lambda>b t. \<not> (b = 1 \<and> t = 0))) = 3
   \<and> free_count (run_pool [Acquire, Acquire, Acquire, Release 1, Acquire, Acquire, Acquire, Release 0]
        (new_pool 2 2 (\<lambda>_. True) (\<lambda>b t. \<not> (b = 1 \<and> t = 0)))) = 1
   \<and> checked_out (run_pool [Acquire, Acquire, Acquire, Release 1, Acquire, Acquire, Acquire, Release 0]
        (new_pool 2 2 (\<lambda>_. True) (\<lambda>b t. \<not> (b = 1 \<and> t = 0)))) = [((1, 1), 1), ((0, 1), 0)]"
proof -
  let ?calls = "[Acquire, Acquire, Acquire, Release 1, Acquire, Acquire, Acquire, Release 0]"
  let ?lo = "\<lambda>_::nat. True" and ?to = "\<lambda>(b::nat) (t::nat). \<not> (b = 1 \<and> t = 0)"
  have i: "new_pool 2 2 ?lo ?to =
      \<lparr>browsers = [\<lparr>tabs_available = 2, tabs = [(0, 0), (0, 1)]\<rparr>,
                   \<lparr>tabs_available = 2, tabs = [(1, 1)]\<rparr>], checked_out = []\<rparr>"
    by (simp add: new_pool_def init_browsers_def upt_rec numeral_2_eq_2)
  have c: "checked_out (run_pool ?calls (new_pool 2 2 ?lo ?to)) = [((1, 1), 1), ((0, 1), 0)]"
    unfolding i by (simp add: run_pool_def release_tab_def)
  have f: "free_count (new_pool 2 2 ?lo ?to) = 3"
    unfolding i by (simp add: free_count_def free_tabs_def)
  from pool_conservation[of ?calls 2 2 ?lo ?to]
  have "free_count (run_pool ?calls (new_pool 2 2 ?lo ?to)) +
        checked_out_count (run_pool ?calls (new_pool 2 2 ?lo ?to)) = 3"
    unfolding f by (rule conjunct1)
  then have "free_count (run_pool ?calls (new_pool 2 2 ?lo ?to)) = 1"
    unfolding checked_out_count_def c by simp
  then show ?thesis using c f by blast
qed

lemma range_from_done: "n \<le> i \<Longrightarrow> range_from i n step = []"
  by (subst range_from.simps) simp



lemma batches_Nil: "batches batch_size [] = []"
  by (simp add: batches_def range_from_done)










lemma unlock_file_clears: "unlock_file c file_path L (lock_path c file_path) = None"
  by (simp add: unlock_file_def Let_def)

lemma lock_file_sets:
  "lock_file c t file_path L (lock_path c file_path) = Some \<lparr>holder = coord_instance_id c, mtime = t\<rparr>"
  by (simp add: lock_file_def)

lemma wave_v_locks: "locks (snd (snd (wave_v extract file_path batch s))) = locks (snd (snd s))"
  by (simp add: wave_v_def process_episode_batch_v_def write_json_def Let_def)

lemma fold_wave_v_locks:
  "locks (snd (snd (fold (wave_v extract file_path) bs s))) = locks (snd (snd s))"
  by (induction bs arbitrary: s) (simp_all add: wave_v_locks)

lemma settle_ser_locks: "locks (bs_world (settle_ser p s)) = locks (bs_world s)"
  by (simp add: settle_ser_def log_failure_def Let_def split: outcome.splits)

lemma fold_settle_ser_locks: "locks (bs_world (fold settle_ser ps s)) = locks (bs_world s)"
  by (induction ps arbitrary: s) (simp_all add: settle_ser_locks)

lemma wave_ser_locks: "locks (snd (snd (wave_ser extract batch s))) = locks (snd (snd s))"
  by (simp add: wave_ser_def process_episode_batch_ser_def fold_settle_ser_locks Let_def)

lemma fold_wave_ser_locks:
  "locks (snd (snd (fold (wave_ser extract) bs s))) = locks (snd (snd s))"
  by (induction bs arbitrary: s) (simp_all add: wave_ser_locks)

lemma body_v_holds_lock:
  "locks (snd (snd (process_file_body_v extract file_path (x, w)))) (lock_path (coordinator x) file_path)
     = Some \<lparr>holder = coord_instance_id (coordinator x), mtime = now w\<rparr>"
  by (simp add: process_file_body_v_def Let_def fold_wave_v_locks lock_file_sets
      split: sum.splits)

lemma body_ser_holds_lock:
  "locks (snd (snd (process_file_body_ser extract file_path (x, w)))) (lock_path (coordinator x) file_path)
     = Some \<lparr>holder = coord_instance_id (coordinator x), mtime = now w\<rparr>"
  by (simp add: process_file_body_ser_def Let_def fold_wave_ser_locks lock_file_sets write_json_def
      split: sum.splits)

text \<open>
  Claim C6.  However \<^verbatim>\<open>process_file\<close> ends, by one of its \<^verbatim>\<open>return True\<close>, with extraction
  failures recorded in the episodes, or by an exception caught in its \<^verbatim>\<open>except\<close> branch
  (a missing or malformed file, a division by zero), the \<^verbatim>\<open>finally\<close> block has removed the
  marker of the file when the call returns to the loop of \<^verbatim>\<open>run_instance\<close>, in both scripts;
  while the \<^verbatim>\<open>try\<close> block runs the marker is the one this instance wrote.
\<close>

theorem lock_released_on_every_exit:
  "locks (snd (snd (process_file_v extract file_path (x, w)))) (lock_path (coordinator x) file_path) = None
   \<and> locks (snd (snd (process_file_ser extract file_path (x, w)))) (lock_path (coordinator x) file_path) = None
   \<and> locks (snd (snd (process_file_body_v extract file_path (x, w)))) (lock_path (coordinator x) file_path)
       = Some \<lparr>holder = coord_instance_id (coordinator x), mtime = now w\<rparr>
   \<and> locks (snd (snd (process_file_body_ser extract file_path (x, w)))) (lock_path (coordinator x) file_path)
       = Some \<lparr>holder = coord_instance_id (coordinator x), mtime = now w\<rparr>"
proof -
  have a: "locks (snd (snd (process_file_v extract file_path (x, w)))) (lock_path (coordinator x) file_path) = None"
    by (simp add: process_file_v_def Let_def unlock_file_clears)
  have b: "locks (snd (snd (process_file_ser extract file_path (x, w)))) (lock_path (coordinator x) file_path) = None"
    by (simp add: process_file_ser_def Let_def unlock_file_clears split: option.splits)
  show ?thesis using a b body_v_holds_lock body_ser_holds_lock by blast
qed

theorem lock_released_on_every_exit_witness:
  "fst (process_file_v demo_extract ''data/anime_d.json'' (small_extractor, demo_world)) = True
   \<and> locks (snd (snd (process_file_v demo_extract ''data/anime_d.json'' (small_extractor, demo_world))))
       ''.coordination/anime_d.json.lock'' = None
   \<and> fst (process_file_v demo_extract ''data/anime_a.json'' (small_extractor, demo_world)) = True
   \<and> error_count (fst (snd (process_file_v demo_extract ''data/anime_a.json''
       (small_extractor, demo_world)))) = 2
   \<and> locks (snd (snd (process_file_v demo_extract ''data/anime_a.json'' (small_extractor, demo_world))))
       ''.coordination/anime_a.json.lock'' = None
   \<and> fst (process_file_v demo_extract ''data/anime_g.json'' (small_extractor, demo_world)) = False
   \<and> locks (snd (snd (process_file_v demo_extract ''data/anime_g.json'' (small_extractor, demo_world))))
       ''.coordination/anime_g.json.lock'' = None
   \<and> fst (process_file_ser demo_extract ''data/anime_a.json'' (small_extractor, demo_world)) = True
   \<and> locks (snd (snd (process_file_ser demo_extract ''data/anime_a.json'' (small_extractor, demo_world))))
       ''.coordination/anime_a.json.lock'' = None
   \<and> fst (process_file_ser demo_extract ''data/anime_z.json'' (small_extractor, demo_world)) = False
   \<and> locks (snd (snd (process_file_ser demo_extract ''data/anime_z.json'' (small_extractor, demo_world))))
       ''.coordination/anime_z.json.lock'' = None
   \<and> locks (snd (snd (process_file_body_v demo_extract ''data/anime_a.json''
       (small_extractor, demo_world)))) ''.coordination/anime_a.json.lock''
       = Some \<lparr>holder = ''0a1b2c3d'', mtime = 1000\<rparr>"
proof -
  have p: "lock_path (coordinator small_extractor) ''data/anime_a.json'' = ''.coordination/anime_a.json.lock''"
    "lock_path (coordinator small_extractor) ''data/anime_d.json'' = ''.coordination/anime_d.json.lock''"
    "lock_path (coordinator small_extractor) ''data/anime_g.json'' = ''.coordination/anime_g.json.lock''"
    "lock_path (coordinator small_extractor) ''data/anime_z.json'' = ''.coordination/anime_z.json.lock''"
    by code_simp+
  have c: "coord_instance_id (coordinator small_extractor) = ''0a1b2c3d''" "now demo_world = 1000"
    by (simp_all add: small_extractor_def demo_extractor_def demo_coordinator_def demo_world_def)
  have r: "fst (process_file_v demo_extract ''data/anime_d.json'' (small_extractor, demo_world)) = True"
    "fst (process_file_v demo_extract ''data/anime_a.json'' (small_extractor, demo_world)) = True"
    "error_count (fst (snd (process_file_v demo_extract ''data/anime_a.json''
       (small_extractor, demo_world)))) = 2"
    "fst (process_file_v demo_extract ''data/anime_g.json'' (small_extractor, demo_world)) = False"
    "fst (process_file_ser demo_extract ''data/anime_a.json'' (small_extractor, demo_world)) = True"
    "fst (process_file_ser demo_extract ''data/anime_z.json'' (small_extractor, demo_world)) = False"
    by code_simp+
  note d = lock_released_on_every_exit[of demo_extract "''data/anime_d.json''" small_extractor demo_world,
      unfolded p]
  note a = lock_released_on_every_exit[of demo_extract "''data/anime_a.json''" small_extractor demo_world,
      unfolded p c]
  note g = lock_released_on_every_exit[of demo_extract "''data/anime_g.json''" small_extractor demo_world,
      unfolded p]
  note z = lock_released_on_every_exit[of demo_extract "''data/anime_z.json''" small_extractor demo_world,
      unfolded p]
  show ?thesis using r d a g z by blast
qed

lemma refs_load_anime:
  "concat (map snd (load_anime n j)) = [n..<n + length (concat (map snd j))]"
proof (induction j arbitrary: n)
  case Nil
  then show ?case by simp
next
  case (Cons a j)
  have "[n..<n + length (snd a) + length (concat (map snd j))] =
        [n..<n + length (snd a)] @
        [n + length (snd a)..<n + length (snd a) + length (concat (map snd j))]"
    by (rule upt_add_eq_append) simp
  then show ?case using Cons.IH[of "n + length (snd a)"] by (simp add: add.assoc)
qed

lemma all_refs_json_loads:
  "concat (map snd (animes (json_loads j))) = [0..<length (heap (json_loads j))]"
  by (simp add: json_loads_def refs_load_anime)

lemma nth_middle_upt:
  "map (\<lambda>r. (pre @ ys @ zs) ! r) [length pre..<length pre + length ys] = ys"
proof -
  have "[length pre..<length pre + length ys] = map (\<lambda>i. i + length pre) [0..<length ys]"
    by (simp add: map_add_upt add.commute)
  then have "map (\<lambda>r. (pre @ ys @ zs) ! r) [length pre..<length pre + length ys] =
        map (\<lambda>i. (pre @ ys @ zs) ! (length pre + i)) [0..<length ys]"
    by (simp add: comp_def add.commute)
  also have "\<dots> = map (\<lambda>i. ys ! i) [0..<length ys]"
    by (intro map_cong refl) (simp add: nth_append)
  also have "\<dots> = ys" by (rule map_nth)
  finally show ?thesis .
qed

lemma dump_load_anime:
  "map (\<lambda>a. (fst a, map (\<lambda>r. (pre @ concat (map snd j)) ! r) (snd a))) (load_anime (length pre) j) = j"
proof (induction j arbitrary: pre)
  case Nil
  then show ?case by simp
next
  case (Cons a j)
  have "map (\<lambda>a'. (fst a', map (\<lambda>r. ((pre @ snd a) @ concat (map snd j)) ! r) (snd a')))
          (load_anime (length (pre @ snd a)) j) = j"
    by (rule Cons.IH)
  then have rest: "map (\<lambda>a'. (fst a', map (\<lambda>r. (pre @ snd a @ concat (map snd j)) ! r) (snd a')))
          (load_anime (length pre + length (snd a)) j) = j"
    by simp
  show ?case using rest nth_middle_upt[of pre "snd a" "concat (map snd j)"] by simp
qed

lemma json_dumps_json_loads: "json_dumps (json_loads j) = j"
  using dump_load_anime[of "[]" j] by (simp add: json_dumps_def json_loads_def)

lemma pending_json_loads:
  "pending (json_loads j) =
     filter (\<lambda>r. \<not> truthy (iframe_url (concat (map snd j) ! r))) [0..<length (concat (map snd j))]"
  unfolding pending_def all_refs_json_loads by (simp add: json_loads_def)




lemma pending_empty_iff:
  "pending (json_loads j) = [] \<longleftrightarrow> list_all (\<lambda>a. list_all (\<lambda>e. truthy (iframe_url e)) (snd a)) j"
proof -
  have "pending (json_loads j) = [] \<longleftrightarrow>
        (\<forall>r<length (concat (map snd j)). truthy (iframe_url (concat (map snd j) ! r)))"
    unfolding pending_json_loads by (auto simp: filter_empty_conv)
  also have "\<dots> \<longleftrightarrow> (\<forall>e\<in>set (concat (map snd j)). truthy (iframe_url e))"
    by (rule all_set_conv_all_nth[symmetric])
  also have "\<dots> \<longleftrightarrow> list_all (\<lambda>a. list_all (\<lambda>e. truthy (iframe_url e)) (snd a)) j"
    by (auto simp: list_all_iff)
  finally show ?thesis .
qed



lemma unlock_after_lock:
  "unlock_file c file_path (lock_file c t file_path L) = L(lock_path c file_path := None)"
  by (simp add: unlock_file_def lock_file_def Let_def)

lemma waves_Nil: "0 < b \<Longrightarrow> waves b [] = Inr []"
  by (simp add: waves_def batches_Nil)

text \<open>
  Claim C3, as amended.  Let every episode of the file already carry a non-empty
  \<^verbatim>\<open>iframe_url\<close>.  In \<^verbatim>\<open>v.py\<close>, \<^verbatim>\<open>process_file\<close> then returns \<^verbatim>\<open>True\<close> at once: it counts the file as
  processed and leaves the world as it found it, apart from the marker it set and removed, so
  it calls the collaborator zero times and writes the file zero times.  In \<^verbatim>\<open>ser.py\<close> it also
  returns \<^verbatim>\<open>True\<close> without calling the collaborator, but it writes the file once, with the
  content it read.
\<close>

theorem rerun_on_finished_item:
  assumes "files w file_path = Some (Json j)"
    and "list_all (\<lambda>a. list_all (\<lambda>e. truthy (iframe_url e)) (snd a)) j"
  shows "process_file_v extract file_path (x, w) =
           (True, x\<lparr>files_processed_count := files_processed_count x + 1\<rparr>,
            w\<lparr>locks := (locks w)(lock_path (coordinator x) file_path := None)\<rparr>)
       \<and> fst (process_file_ser extract file_path (x, w)) = True
       \<and> trace (snd (snd (process_file_ser extract file_path (x, w)))) = trace w @ [Wrote file_path j]
       \<and> files (snd (snd (process_file_ser extract file_path (x, w)))) = files w"
proof -
  have p: "pending (json_loads j) = []"
    using assms(2) by (simp add: pending_empty_iff)
  have v: "process_file_v extract file_path (x, w) =
           (True, x\<lparr>files_processed_count := files_processed_count x + 1\<rparr>,
            w\<lparr>locks := (locks w)(lock_path (coordinator x) file_path := None)\<rparr>)"
    using assms(1) p
    by (simp add: process_file_v_def process_file_body_v_def read_json_def Let_def unlock_after_lock)
  have b: "process_file_body_ser extract file_path (x', w') =
      (None, idle (x'\<lparr>current_file_progress :=
                         \<lparr>file_name = the (current_file x'),
                          fp_total_episodes = int (length (concat (map snd (animes (json_loads j))))),
                          fp_processed = 0,
                          fp_skipped = int (length (filter (\<lambda>r. truthy (iframe_url (heap (json_loads j) ! r)))
                                        (concat (map snd (animes (json_loads j)))))),
                          fp_remaining = 0\<rparr>\<rparr>),
       (write_json file_path (json_loads j)
          (w'\<lparr>locks := lock_file (coordinator x') (now w') file_path (locks w')\<rparr>))
        \<lparr>progress := map_option (mark_file_completed file_path) (progress w')\<rparr>)"
    if "files w' file_path = Some (Json j)" for x' w'
    using that p
    by (simp add: process_file_body_ser_def read_json_def Let_def batch_size_ser_def waves_Nil
        write_json_def)
  let ?x0 = "x\<lparr>current_file := Some (basename file_path)\<rparr>"
  let ?w0 = "w\<lparr>progress := map_option (mark_file_started file_path (instance_id x)) (progress w)\<rparr>"
  have f0: "files ?w0 file_path = Some (Json j)" using assms(1) by simp
  note r = b[OF f0, of ?x0]
  have s1: "fst (process_file_ser extract file_path (x, w)) = True"
    by (simp add: process_file_ser_def Let_def r)
  have s2: "trace (snd (snd (process_file_ser extract file_path (x, w)))) = trace w @ [Wrote file_path j]"
    by (simp add: process_file_ser_def Let_def r write_json_def json_dumps_json_loads)
  have "(files w)(file_path \<mapsto> Json j) = files w"
    using assms(1) by (rule map_upd_triv)
  then have s3: "files (snd (snd (process_file_ser extract file_path (x, w)))) = files w"
    by (simp add: process_file_ser_def Let_def r write_json_def json_dumps_json_loads)
  show ?thesis using v s1 s2 s3 by blast
qed

theorem rerun_on_finished_item_witness:
  "files demo_world ''data/anime_d.json'' = Some (Json done_json)
   \<and> list_all (\<lambda>a. list_all (\<lambda>e. truthy (iframe_url e)) (snd a)) done_json
   \<and> fst (process_file_v demo_extract ''data/anime_d.json'' (demo_extractor, demo_world)) = True
   \<and> files_processed_count
       (fst (snd (process_file_v demo_extract ''data/anime_d.json'' (demo_extractor, demo_world)))) = 1
   \<and> trace (snd (snd (process_file_v demo_extract ''data/anime_d.json'' (demo_extractor, demo_world)))) = []
   \<and> files (snd (snd (process_file_v demo_extract ''data/anime_d.json'' (demo_extractor, demo_world))))
       = files demo_world
   \<and> trace (snd (snd (process_file_ser demo_extract ''data/anime_d.json'' (demo_extractor, demo_world))))
       = [Wrote ''data/anime_d.json'' done_json]"
proof -
  have h1: "files demo_world ''data/anime_d.json'' = Some (Json done_json)"
    by (simp add: demo_world_def)
  have h2: "list_all (\<lambda>a. list_all (\<lambda>e. truthy (iframe_url e)) (snd a)) done_json"
    by (simp add: done_json_def ep_def truthy_def)
  note t = rerun_on_finished_item[OF h1 h2, of demo_extract demo_extractor]
  have c: "files_processed_count demo_extractor = 0" "trace demo_world = []"
    by (simp_all add: demo_extractor_def demo_world_def)
  show ?thesis using h1 h2 t c by simp
qed

theorem rerun_ser_writes_counterexample:
  "list_all (\<lambda>a. list_all (\<lambda>e. iframe_url e \<noteq> None) (snd a)) done_json
   \<and> pending (json_loads done_json) = []
   \<and> fst (process_file_ser demo_extract ''data/anime_d.json'' (demo_extractor, demo_world)) = True
   \<and> filter is_write
       (trace (snd (snd (process_file_ser demo_extract ''data/anime_d.json'' (demo_extractor, demo_world)))))
       = [Wrote ''data/anime_d.json'' done_json]"
  by code_simp





lemma batch_v_animes:
  "animes (fst (process_episode_batch_v extract batch (d, x, w))) = animes d"
  by (simp add: process_episode_batch_v_def Let_def)




lemma process_single_episode_url:
  "url e = url e' \<Longrightarrow> process_single_episode extract e = process_single_episode extract e'"
  by (simp add: process_single_episode_def)



























lemma ser_error_path:
  assumes "read_json (files w) file_path = Inl e"
  shows "process_file_ser extract file_path (x, w) =
     (False, idle (x\<lparr>current_file := Some (basename file_path)\<rparr>),
      w\<lparr>progress := map_option (mark_file_completed file_path)
                       (map_option (mark_file_started file_path (instance_id x)) (progress w)),
        locks := (locks w)(lock_path (coordinator x) file_path := None)\<rparr>)"
  using assms
  by (simp add: process_file_ser_def process_file_body_ser_def Let_def unlock_after_lock)

lemma completed_after_started:
  "file_path \<in> completed_files (mark_file_completed file_path (mark_file_started file_path i gp))
   \<and> currently_processing (mark_file_completed file_path (mark_file_started file_path i gp)) file_path = None"
  by (simp add: mark_file_completed_def mark_file_started_def)

lemma remaining_after_failure:
  assumes "finite (completed_files gp)" "finite (dom (currently_processing gp))"
  shows "remaining (mark_file_completed file_path (mark_file_started file_path i gp)) =
     remaining gp - (if file_path \<in> completed_files gp then 0 else 1)
                  + (if file_path \<in> dom (currently_processing gp) then 1 else 0)"
proof -
  let ?C = "completed_files gp" and ?P = "currently_processing gp"
  have c: "int (card (insert file_path ?C)) = int (card ?C) + (if file_path \<in> ?C then 0 else 1)"
    using assms(1) by (simp add: card_insert_if)
  have d: "dom ((?P(file_path \<mapsto> i))(file_path := None)) = dom ?P - {file_path}" by auto
  have p: "int (card (dom ?P - {file_path})) =
           int (card (dom ?P)) - (if file_path \<in> dom ?P then 1 else 0)"
  proof (cases "file_path \<in> dom ?P")
    case True
    then have "0 < card (dom ?P)" using assms(2) by (auto simp: card_gt_0_iff)
    then show ?thesis using True assms(2) by (simp add: card_Diff_singleton_if of_nat_diff)
  next
    case False
    then show ?thesis by simp
  qed
  show ?thesis
    unfolding remaining_def mark_file_completed_def mark_file_started_def
    using c p by (simp add: d)
qed

text \<open>
  Claim C10, as amended.  In \<^verbatim>\<open>ser.py\<close>, with a \<^verbatim>\<open>GlobalProgress\<close> given, let the \<^verbatim>\<open>try\<close> block of
  \<^verbatim>\<open>process_file\<close> raise (the file is missing or is not JSON).  The call returns \<^verbatim>\<open>False\<close>, and
  the \<^verbatim>\<open>except\<close> branch has called \<^verbatim>\<open>mark_file_completed\<close>: the file is in \<^verbatim>\<open>completed_files\<close> and
  no longer in \<^verbatim>\<open>currently_processing\<close>, while the catalogue files are untouched and no episode
  was extracted.  The \<^verbatim>\<open>remaining\<close> figure of \<^verbatim>\<open>get_status\<close> is one less than before the call when
  the file was neither completed nor in flight before; when the file had already been marked
  completed, by an earlier pass, it does not decrease.
\<close>

theorem failed_file_marked_completed:
  assumes "progress w = Some gp" and "read_json (files w) file_path = Inl e"
    and "finite (completed_files gp)" and "finite (dom (currently_processing gp))"
  shows "fst (process_file_ser extract file_path (x, w)) = False
       \<and> progress (snd (snd (process_file_ser extract file_path (x, w)))) =
           Some (mark_file_completed file_path (mark_file_started file_path (instance_id x) gp))
       \<and> file_path \<in> completed_files
           (mark_file_completed file_path (mark_file_started file_path (instance_id x) gp))
       \<and> currently_processing
           (mark_file_completed file_path (mark_file_started file_path (instance_id x) gp)) file_path = None
       \<and> remaining (mark_file_completed file_path (mark_file_started file_path (instance_id x) gp)) =
           remaining gp - (if file_path \<in> completed_files gp then 0 else 1)
                        + (if file_path \<in> dom (currently_processing gp) then 1 else 0)
       \<and> files (snd (snd (process_file_ser extract file_path (x, w)))) = files w
       \<and> trace (snd (snd (process_file_ser extract file_path (x, w)))) = trace w"
  using assms(1) completed_after_started[of file_path "instance_id x" gp]
    remaining_after_failure[OF assms(3,4), of file_path "instance_id x"]
  by (simp add: ser_error_path[OF assms(2)])

lemma demo_read_garbage: "read_json (files demo_world) ''data/anime_g.json'' = Inl JSONDecodeError"
  by (simp add: read_json_def demo_world_def)

theorem failed_file_marked_completed_witness:
  "progress logging_world = Some demo_progress
   \<and> read_json (files logging_world) ''data/anime_g.json'' = Inl JSONDecodeError
   \<and> finite (completed_files demo_progress)
   \<and> finite (dom (currently_processing demo_progress))
   \<and> fst (process_file_ser demo_extract ''data/anime_g.json'' (demo_extractor, logging_world)) = False
   \<and> remaining demo_progress = 3
   \<and> map_option remaining
       (progress (snd (snd (process_file_ser demo_extract ''data/anime_g.json''
          (demo_extractor, logging_world))))) = Some 2
   \<and> map_option completed_files
       (progress (snd (snd (process_file_ser demo_extract ''data/anime_g.json''
          (demo_extractor, logging_world))))) = Some {''data/anime_g.json''}
   \<and> files (snd (snd (process_file_ser demo_extract ''data/anime_g.json''
          (demo_extractor, logging_world)))) = files logging_world"
proof -
  have h1: "progress logging_world = Some demo_progress" by (simp add: logging_world_def)
  have h2: "read_json (files logging_world) ''data/anime_g.json'' = Inl JSONDecodeError"
    using demo_read_garbage by (simp add: logging_world_def)
  have h3: "finite (completed_files demo_progress)" by (simp add: demo_progress_def)
  have h4: "finite (dom (currently_processing demo_progress))" by (simp add: demo_progress_def)
  note t = failed_file_marked_completed[OF h1 h2 h3 h4, of demo_extract demo_extractor]
  have r0: "remaining demo_progress = 3" by (simp add: remaining_def demo_progress_def)
  have q: "''data/anime_g.json'' \<notin> completed_files demo_progress"
    "''data/anime_g.json'' \<notin> dom (currently_processing demo_progress)"
    by (simp_all add: demo_progress_def)
  have c: "completed_files (mark_file_completed ''data/anime_g.json''
             (mark_file_started ''data/anime_g.json'' (instance_id demo_extractor) demo_progress)) =
           {''data/anime_g.json''}"
    by (simp add: mark_file_completed_def mark_file_started_def demo_progress_def)
  show ?thesis using h1 h2 h3 h4 t r0 q c by simp
qed

lemma second_pass_read:
  "read_json (files second_pass_world) ''data/anime_g.json'' = Inl JSONDecodeError"
  using demo_read_garbage by (simp add: second_pass_world_def)

theorem remaining_unchanged_counterexample:
  "remaining second_pass_progress = 2
   \<and> fst (process_file_ser demo_extract ''data/anime_g.json'' (demo_extractor, second_pass_world)) = False
   \<and> map_option remaining
       (progress (snd (snd (process_file_ser demo_extract ''data/anime_g.json''
          (demo_extractor, second_pass_world))))) = Some 2"
  unfolding ser_error_path[OF second_pass_read]
  by (simp add: second_pass_world_def second_pass_progress_def demo_progress_def remaining_def
      mark_file_completed_def mark_file_started_def)












end
